theory Spec2Isabelle
  imports Main
begin

section \<open>JavaScript values\<close>

text \<open>
  The values \<open>match\<close> receives: \<open>null\<close>, \<open>undefined\<close> or a string. A JavaScript
  number that the matcher compares is an integer or \<open>NaN\<close>; \<open>undefined\<close> in a numeric
  position is the \<open>None\<close> of an option.
\<close>

datatype js_value = Null | Undefined | Str string

datatype js_number = Number int | NaN

datatype js_error = Error string

fun ToNumber :: "js_number option \<Rightarrow> js_number" where
  "ToNumber None = NaN"
| "ToNumber (Some x) = x"

text \<open>The relational operator \<open>a > b\<close>: false as soon as one side converts to \<open>NaN\<close>.\<close>

definition gt :: "js_number option \<Rightarrow> js_number option \<Rightarrow> bool" where
  "gt a b = (case ToNumber a of
               NaN \<Rightarrow> False
             | Number x \<Rightarrow> (case ToNumber b of NaN \<Rightarrow> False | Number y \<Rightarrow> y < x))"

section \<open>The decimal primitive\<close>

text \<open>
  Modelled from the spec: the decimal parser and its two digit-count queries (the
  \<open>decimal.js\<close> package, which is not under src/). The spec asks for "parse text as
  arbitrary-precision decimal, fail with an error if malformed", with \<open>.\<close> as the only
  separator, a total significant digit count "counted in the number's canonical,
  non-exponential representation" and a fractional digit count "after the decimal point
  in the number's canonical form (zero if the value is a whole number)".

  A finite decimal is a sign (\<open>True\<close> for negative), the digits of its coefficient without
  leading or trailing zeros (\<open>[0]\<close> for zero) and the exponent of its first digit:
  \<open>12.34\<close> is \<open>Finite False [1,2,3,4] 1\<close>. Decimal text is an optional sign, digits with
  an optional fraction, and an optional exponent; the two literals \<open>Infinity\<close> and \<open>NaN\<close>
  are read as the package reads them.

  The package also reads text in another radix (prefix \<open>0x\<close>, \<open>0b\<close> or \<open>0o\<close>, as in
  \<open>0x1F\<close>) and, in its later versions, text with the digit separator \<open>_\<close> (\<open>1_000\<close>).
  The spec's decimal text has neither, so what the package makes of such text is left
  open: \<open>readOtherNotation\<close> is a function about which nothing is known, and whatever is
  proved of \<open>new_Decimal\<close> holds whether the package accepts such a text or rejects it.
  Text that is neither decimal, nor one of the two literals, nor in such a notation is
  malformed.
\<close>

datatype Decimal = Finite bool "nat list" int | Infinity bool | NotANumber

definition maxE :: int where
  "maxE = 9000000000000000"

definition minE :: int where
  "minE = - 9000000000000000"

definition isDigit :: "char \<Rightarrow> bool" where
  "isDigit c = (c \<in> set ''0123456789'')"

definition digitOf :: "char \<Rightarrow> nat" where
  "digitOf c = of_char c - 48"

definition cut :: "string \<Rightarrow> string \<Rightarrow> string \<times> string option" where
  "cut seps str =
     (takeWhile (\<lambda>c. c \<notin> set seps) str,
      case dropWhile (\<lambda>c. c \<notin> set seps) str of [] \<Rightarrow> None | c # rest \<Rightarrow> Some rest)"

definition unsigned :: "string \<Rightarrow> string" where
  "unsigned str = (case str of
                     [] \<Rightarrow> []
                   | c # rest \<Rightarrow> if c = CHR ''+'' \<or> c = CHR ''-'' then rest else str)"

definition toInt :: "string \<Rightarrow> int" where
  "toInt str =
     (let n = int (foldl (\<lambda>n c. 10 * n + digitOf c) 0 (unsigned str))
      in if take 1 str = ''-'' then - n else n)"

text \<open>The text accepted as a decimal, sign already removed: \<open>(\d+(\.\d*)?|\.\d+)(e[+-]?\d+)?\<close>.\<close>

definition isDecimal :: "string \<Rightarrow> bool" where
  "isDecimal str =
     (case cut ''eE'' str of (m, ex) \<Rightarrow>
        (case cut ''.'' m of (ip, fp) \<Rightarrow>
           list_all isDigit ip \<and>
           (case fp of
              None \<Rightarrow> ip \<noteq> []
            | Some f \<Rightarrow> list_all isDigit f \<and> ip @ f \<noteq> [])) \<and>
        (case ex of
           None \<Rightarrow> True
         | Some x \<Rightarrow> unsigned x \<noteq> [] \<and> list_all isDigit (unsigned x)))"

definition stripZeros :: "nat list \<Rightarrow> nat list" where
  "stripZeros ds = rev (dropWhile (\<lambda>d. d = 0) (rev (dropWhile (\<lambda>d. d = 0) ds)))"

definition parseDecimal :: "bool \<Rightarrow> string \<Rightarrow> Decimal" where
  "parseDecimal s str =
     (case cut ''eE'' str of (m, ex) \<Rightarrow>
        (case cut ''.'' m of (ip, fp) \<Rightarrow>
           (let ds = map digitOf (ip @ (case fp of None \<Rightarrow> [] | Some f \<Rightarrow> f));
                e = int (length ip) + (case ex of None \<Rightarrow> 0 | Some x \<Rightarrow> toInt x);
                i = length (takeWhile (\<lambda>d. d = 0) ds);
                d = stripZeros ds
            in if d \<noteq> [] then
                 (let xe = e - int i - 1
                  in if xe > maxE then Infinity s
                     else if xe < minE then Finite s [0] 0
                     else Finite s d xe)
               else Finite s [0] 0)))"

definition isOtherNotation :: "string \<Rightarrow> bool" where
  "isOtherNotation str =
     (CHR ''_'' \<in> set str \<or>
      take 2 str \<in> set [''0x'', ''0X'', ''0b'', ''0B'', ''0o'', ''0O''])"

definition readOtherNotation :: "bool \<Rightarrow> string \<Rightarrow> js_error + Decimal" where
  "readOtherNotation = undefined"

definition parseOther :: "bool \<Rightarrow> string \<Rightarrow> js_error + Decimal" where
  "parseOther s str =
     (if isOtherNotation str then readOtherNotation s str
      else if str = ''Infinity'' then Inr (Infinity s)
      else if str = ''NaN'' then Inr NotANumber
      else Inl (Error (''[DecimalError] Invalid argument: '' @ str)))"

fun new_Decimal :: "js_value \<Rightarrow> js_error + Decimal" where
  "new_Decimal (Str v) =
     (case v of
        [] \<Rightarrow> parseOther False v
      | c # rest \<Rightarrow>
          if c = CHR ''-'' then
            (if isDecimal rest then Inr (parseDecimal True rest) else parseOther True rest)
          else if c = CHR ''+'' then
            (if isDecimal rest then Inr (parseDecimal False rest) else parseOther False rest)
          else
            (if isDecimal v then Inr (parseDecimal False v) else parseOther False v))"
| "new_Decimal Null = Inl (Error ''[DecimalError] Invalid argument: null'')"
| "new_Decimal Undefined = Inl (Error ''[DecimalError] Invalid argument: undefined'')"

declare new_Decimal.simps [simp del]

text \<open>
  \<open>precision z\<close> is the number of significant digits; with \<open>z\<close> set, the trailing zeros
  of the integer part count as well. \<open>decimalPlaces\<close> is the number of digits after the
  decimal point. Both are \<open>NaN\<close> for a value that is not finite.
\<close>

fun precision :: "bool \<Rightarrow> Decimal \<Rightarrow> js_number" where
  "precision z (Finite s d e) =
     (let k = int (length d) in Number (if z \<and> e + 1 > k then e + 1 else k))"
| "precision z (Infinity s) = NaN"
| "precision z NotANumber = NaN"

fun decimalPlaces :: "Decimal \<Rightarrow> js_number" where
  "decimalPlaces (Finite s d e) =
     (let n = int (length d) - 1 - e in Number (if n < 0 then 0 else n))"
| "decimalPlaces (Infinity s) = NaN"
| "decimalPlaces NotANumber = NaN"

section \<open>The validation result\<close>

text \<open>
  Modelled from the spec: \<open>ValidationResult\<close> (\<open>./validation-result\<close> is not under
  src/), the accumulator that "holds an ordered sequence of ViolationRecords", each a
  pair (code, message), and "exposes an append-violation operation taking (code,
  message)". A new one is empty.
\<close>

record ValidationResult =
  errors :: "(string \<times> string) list"

section \<open>State\<close>

text \<open>
  The matcher object holds its construction-time parameters. \<open>ValidationResult\<close> objects
  are mutable and live in a store, addressed by their index; a method that writes takes
  the state and returns the new one.
\<close>

record DecimalNumberMatcher =
  params :: "int list"

type_synonym ref = nat

record state =
  this :: DecimalNumberMatcher
  heap :: "ValidationResult list"

definition new_ValidationResult :: "state \<Rightarrow> ref \<times> state" where
  "new_ValidationResult \<sigma> = (length (heap \<sigma>), \<sigma>\<lparr>heap := heap \<sigma> @ [\<lparr>errors = []\<rparr>]\<rparr>)"

definition addInvalidTypeError :: "ref \<Rightarrow> string \<Rightarrow> string \<Rightarrow> state \<Rightarrow> state" where
  "addInvalidTypeError r code message \<sigma> =
     \<sigma>\<lparr>heap := (heap \<sigma>)[r := (heap \<sigma> ! r)\<lparr>errors := errors (heap \<sigma> ! r) @ [(code, message)]\<rparr>]\<rparr>"

section \<open>The matcher\<close>

definition DEFAULT_DIGIT_LIMIT :: int where
  "DEFAULT_DIGIT_LIMIT = 11"

definition NOT_VALID :: "string \<times> string" where
  "NOT_VALID = (''doubleNumber.e001'', ''The value is not a valid decimal number.'')"

definition EXCEEDED_MAX_NUMBER_OF_DIGITS :: "string \<times> string" where
  "EXCEEDED_MAX_NUMBER_OF_DIGITS =
     (''doubleNumber.e002'', ''The value exceeded maximum number of digits.'')"

definition EXCEEDED_MAX_NUMBER_OF_DECIMAL_PLACES :: "string \<times> string" where
  "EXCEEDED_MAX_NUMBER_OF_DECIMAL_PLACES =
     (''doubleNumber.e003'', ''The value exceeded maximum number of decimal places.'')"

definition constructor :: "int list \<Rightarrow> DecimalNumberMatcher" where
  "constructor ps = \<lparr>params = ps\<rparr>"

text \<open>\<open>this.params[i]\<close>: \<open>undefined\<close> beyond the end of the array.\<close>

definition param :: "nat \<Rightarrow> state \<Rightarrow> js_number option" where
  "param i \<sigma> =
     (if i < length (params (this \<sigma>)) then Some (Number (params (this \<sigma>) ! i)) else None)"

definition validateParamsLength :: "nat \<Rightarrow> state \<Rightarrow> bool" where
  "validateParamsLength length' \<sigma> = (length (params (this \<sigma>)) = length')"

text \<open>\<open>number?.f()\<close> is \<open>undefined\<close> when \<open>number\<close> is \<open>null\<close>.\<close>

definition isExceededMaxNumberOfDecimalPlaces :: "Decimal option \<Rightarrow> state \<Rightarrow> bool" where
  "isExceededMaxNumberOfDecimalPlaces number \<sigma> =
     gt (map_option decimalPlaces number) (param 1 \<sigma>)"

definition isExceededMaxNumberOfDigits ::
    "Decimal option \<Rightarrow> js_number option \<Rightarrow> state \<Rightarrow> bool" where
  "isExceededMaxNumberOfDigits number maxNumberOfDigits \<sigma> =
     gt (map_option (precision True) number) maxNumberOfDigits"

definition convertToDecimal :: "js_value \<Rightarrow> ref \<Rightarrow> state \<Rightarrow> Decimal option \<times> state" where
  "convertToDecimal v result \<sigma> =
     (case new_Decimal v of
        Inr number \<Rightarrow> (Some number, \<sigma>)
      | Inl e \<Rightarrow> (None, addInvalidTypeError result (fst NOT_VALID) (snd NOT_VALID) \<sigma>))"

definition validateMaxNumberOfDigits ::
    "Decimal option \<Rightarrow> js_number option \<Rightarrow> ref \<Rightarrow> state \<Rightarrow> state" where
  "validateMaxNumberOfDigits number maxNumberOfDigits result \<sigma> =
     (if isExceededMaxNumberOfDigits number maxNumberOfDigits \<sigma> then
        addInvalidTypeError result (fst EXCEEDED_MAX_NUMBER_OF_DIGITS)
          (snd EXCEEDED_MAX_NUMBER_OF_DIGITS) \<sigma>
      else \<sigma>)"

definition validateMaxNumberOfDecimalPlaces :: "Decimal option \<Rightarrow> ref \<Rightarrow> state \<Rightarrow> state" where
  "validateMaxNumberOfDecimalPlaces number result \<sigma> =
     (if isExceededMaxNumberOfDecimalPlaces number \<sigma> then
        addInvalidTypeError result (fst EXCEEDED_MAX_NUMBER_OF_DECIMAL_PLACES)
          (snd EXCEEDED_MAX_NUMBER_OF_DECIMAL_PLACES) \<sigma>
      else \<sigma>)"

definition processNoParamInput :: "js_value \<Rightarrow> ref \<Rightarrow> state \<Rightarrow> ref option \<times> state" where
  "processNoParamInput v result \<sigma> =
     (case convertToDecimal v result \<sigma> of (number, \<sigma>1) \<Rightarrow>
        (Some result,
         validateMaxNumberOfDigits number (Some (Number DEFAULT_DIGIT_LIMIT)) result \<sigma>1))"

definition processOneParamInput :: "js_value \<Rightarrow> ref \<Rightarrow> state \<Rightarrow> ref option \<times> state" where
  "processOneParamInput v result \<sigma> =
     (case convertToDecimal v result \<sigma> of (number, \<sigma>1) \<Rightarrow>
        (Some result, validateMaxNumberOfDigits number (param 0 \<sigma>1) result \<sigma>1))"

definition processTwoParamsInput :: "js_value \<Rightarrow> ref \<Rightarrow> state \<Rightarrow> ref option \<times> state" where
  "processTwoParamsInput v result \<sigma> =
     (case convertToDecimal v result \<sigma> of (number, \<sigma>1) \<Rightarrow>
        (let \<sigma>2 = validateMaxNumberOfDigits number (param 0 \<sigma>1) result \<sigma>1
         in (Some result, validateMaxNumberOfDecimalPlaces number result \<sigma>2)))"

text \<open>
  \<open>match\<close> returns the address of its result, or \<open>None\<close> where the JavaScript function
  ends without a \<open>return\<close> and so yields \<open>undefined\<close>.
\<close>

definition match :: "js_value \<Rightarrow> state \<Rightarrow> ref option \<times> state" where
  "match v \<sigma> =
     (case new_ValidationResult \<sigma> of (result, \<sigma>1) \<Rightarrow>
        if v \<noteq> Null \<and> v \<noteq> Undefined then
          (if validateParamsLength 0 \<sigma>1 then processNoParamInput v result \<sigma>1
           else if validateParamsLength 1 \<sigma>1 then processOneParamInput v result \<sigma>1
           else if validateParamsLength 2 \<sigma>1 then processTwoParamsInput v result \<sigma>1
           else (None, \<sigma>1))
        else (None, \<sigma>1))"

text \<open>
  What the caller holds after a call: the object behind the returned address, or nothing.
  \<open>start ps\<close> is a matcher constructed with \<open>ps\<close> in an otherwise empty store.
\<close>

definition outcome :: "ref option \<times> state \<Rightarrow> ValidationResult option" where
  "outcome x = (case x of (r, \<sigma>) \<Rightarrow> map_option (\<lambda>a. heap \<sigma> ! a) r)"

definition start :: "int list \<Rightarrow> state" where
  "start ps = \<lparr>this = constructor ps, heap = []\<rparr>"

text \<open>
  What the two digit checks read off a string: \<open>number?.precision(true)\<close> and
  \<open>number?.decimalPlaces()\<close> of the converted value, \<open>undefined\<close> when the string
  does not convert.
\<close>

definition totalDigits :: "string \<Rightarrow> js_number option" where
  "totalDigits str =
     (case new_Decimal (Str str) of Inl e \<Rightarrow> None | Inr number \<Rightarrow> Some (precision True number))"

definition fractionDigits :: "string \<Rightarrow> js_number option" where
  "fractionDigits str =
     (case new_Decimal (Str str) of Inl e \<Rightarrow> None | Inr number \<Rightarrow> Some (decimalPlaces number))"

section \<open>Lists of digits\<close>

lemma isDigit_not_sep:
  assumes "isDigit c"
  shows "c \<noteq> CHR ''e''" "c \<noteq> CHR ''E''" "c \<noteq> CHR ''.''" "c \<noteq> CHR ''+''" "c \<noteq> CHR ''-''"
    "c \<noteq> CHR ''I''" "c \<noteq> CHR ''N''"
  using assms by (auto simp: isDigit_def)

lemma digitOf_zero: "isDigit c \<Longrightarrow> digitOf c = 0 \<longleftrightarrow> c = CHR ''0''"
  by (auto simp: isDigit_def digitOf_def)

lemma cut_none: "\<forall>c\<in>set str. c \<notin> set seps \<Longrightarrow> cut seps str = (str, None)"
  by (simp add: cut_def takeWhile_eq_all_conv dropWhile_eq_Nil_conv [THEN iffD2])

lemma cut_Cons: "c \<notin> set seps \<Longrightarrow> cut seps (c # str) = (c # fst (cut seps str), snd (cut seps str))"
  by (simp add: cut_def)

lemma cut_at: "\<forall>c\<in>set a. c \<notin> set seps \<Longrightarrow> x \<in> set seps \<Longrightarrow> cut seps (a @ x # b) = (a, Some b)"
  by (simp add: cut_def takeWhile_append2 dropWhile_append2 takeWhile_eq_all_conv dropWhile_eq_Nil_conv [THEN iffD2])

lemma stripZeros_Cons0: "stripZeros (0 # ds) = stripZeros ds"
  by (simp add: stripZeros_def)

lemma stripZeros_snoc0: "stripZeros (ds @ [0]) = stripZeros ds"
proof (cases "\<forall>d\<in>set ds. d = 0")
  case True
  then have "dropWhile (\<lambda>d. d = 0) ds = []"
    by (simp only: dropWhile_eq_Nil_conv)
  moreover from True have "\<forall>d\<in>set (ds @ [0]). d = 0"
    by simp
  then have "dropWhile (\<lambda>d. d = 0) (ds @ [0]) = []"
    by (simp only: dropWhile_eq_Nil_conv)
  ultimately show ?thesis
    by (simp only: stripZeros_def rev.simps)
next
  case False
  then obtain x where x: "x \<in> set ds" "\<not> x = 0"
    by blast
  have "dropWhile (\<lambda>d. d = 0) (ds @ [0]) = dropWhile (\<lambda>d. d = 0) ds @ [0]"
    by (rule dropWhile_append1 [of x ds "\<lambda>d. d = 0", OF x])
  then show ?thesis
    by (simp add: stripZeros_def)
qed

lemma stripZeros_Nil_iff: "stripZeros ds = [] \<longleftrightarrow> (\<forall>d\<in>set ds. d = 0)"
proof
  assume "stripZeros ds = []"
  then have "dropWhile (\<lambda>d. d = 0) (rev (dropWhile (\<lambda>d. d = 0) ds)) = []"
    by (simp only: stripZeros_def rev_is_Nil_conv)
  then have "\<forall>x\<in>set (rev (dropWhile (\<lambda>d. d = 0) ds)). x = 0"
    by (simp only: dropWhile_eq_Nil_conv)
  then have all0: "\<forall>x\<in>set (dropWhile (\<lambda>d. d = 0) ds). x = 0"
    by (simp only: set_rev)
  have "dropWhile (\<lambda>d. d = 0) ds = []"
  proof (rule ccontr)
    assume ne: "dropWhile (\<lambda>d. d = 0) ds \<noteq> []"
    then have nz: "hd (dropWhile (\<lambda>d. d = 0) ds) \<noteq> 0"
      by (rule hd_dropWhile)
    from ne have "hd (dropWhile (\<lambda>d. d = 0) ds) \<in> set (dropWhile (\<lambda>d. d = 0) ds)"
      by (rule hd_in_set)
    with all0 have "hd (dropWhile (\<lambda>d. d = 0) ds) = 0"
      by (rule bspec)
    with nz show False
      by (rule notE)
  qed
  then show "\<forall>d\<in>set ds. d = 0"
    by (simp only: dropWhile_eq_Nil_conv)
next
  assume "\<forall>d\<in>set ds. d = 0"
  then have "dropWhile (\<lambda>d. d = 0) ds = []"
    by (simp only: dropWhile_eq_Nil_conv)
  then show "stripZeros ds = []"
    by (simp only: stripZeros_def rev.simps dropWhile.simps)
qed

lemma stripZeros_last_nonzero:
  assumes "ds \<noteq> []" and "last ds \<noteq> 0"
  shows "stripZeros ds = dropWhile (\<lambda>d. d = 0) ds"
proof -
  let ?t = "dropWhile (\<lambda>d. d = 0) ds"
  from assms(1) have mem: "last ds \<in> set ds"
    by (rule last_in_set)
  have "\<not> (\<forall>d\<in>set ds. d = 0)"
  proof
    assume "\<forall>d\<in>set ds. d = 0"
    from this mem have "last ds = 0"
      by (rule bspec)
    with assms(2) show False
      by (rule notE)
  qed
  then have ne: "?t \<noteq> []"
    by simp
  have "last ds = last (takeWhile (\<lambda>d. d = 0) ds @ ?t)"
    by (simp only: takeWhile_dropWhile_id)
  also from ne have "\<dots> = last ?t"
    by (rule last_appendR)
  finally have "last ?t \<noteq> 0"
    using assms(2) by simp
  with ne have "hd (rev ?t) \<noteq> 0"
    by (simp add: hd_rev)
  moreover from ne have "rev ?t \<noteq> []"
    by (simp del: dropWhile_eq_Nil_conv)
  ultimately have "dropWhile (\<lambda>d. d = 0) (rev ?t) = rev ?t"
    by (cases "rev ?t") simp_all
  then show ?thesis
    by (simp only: stripZeros_def rev_rev_ident)
qed

lemma length_stripZeros_le:
  "length (stripZeros ds) + length (takeWhile (\<lambda>d. d = 0) ds) \<le> length ds"
proof -
  let ?t = "dropWhile (\<lambda>d. d = 0) ds"
  have "length (stripZeros ds) = length (dropWhile (\<lambda>d. d = 0) (rev ?t))"
    by (simp only: stripZeros_def length_rev)
  also have "\<dots> \<le> length (rev ?t)"
    by (rule length_dropWhile_le)
  finally have "length (stripZeros ds) \<le> length ?t"
    by (simp only: length_rev)
  moreover have "length (takeWhile (\<lambda>d. d = 0) ds @ ?t) = length ds"
    by (simp only: takeWhile_dropWhile_id)
  then have "length (takeWhile (\<lambda>d. d = 0) ds) + length ?t = length ds"
    by (simp only: length_append)
  ultimately show ?thesis
    by arith
qed

section \<open>Reading decimal text\<close>

text \<open>
  How \<open>new_Decimal\<close> treats signs, leading zeros, trailing zeros of a fraction, whole
  numbers and fractions.
\<close>

lemma isDecimal_unsigned:
  assumes "isDecimal s"
  shows "\<exists>c r. s = c # r \<and> c \<noteq> CHR ''-'' \<and> c \<noteq> CHR ''+''"
proof (cases s)
  case Nil
  with assms show ?thesis
    by (simp add: isDecimal_def cut_def)
next
  case (Cons c r)
  have "\<not> isDecimal (CHR ''-'' # r)" "\<not> isDecimal (CHR ''+'' # r)"
    by (simp_all add: isDecimal_def cut_Cons isDigit_def split_beta)
  with assms Cons show ?thesis
    by auto
qed

lemma new_Decimal_unsigned: "isDecimal s \<Longrightarrow> new_Decimal (Str s) = Inr (parseDecimal False s)"
  using isDecimal_unsigned [of s] by (auto simp: new_Decimal.simps)

lemma new_Decimal_minus: "isDecimal s \<Longrightarrow> new_Decimal (Str (CHR ''-'' # s)) = Inr (parseDecimal True s)"
  by (simp add: new_Decimal.simps)

lemma new_Decimal_plus: "isDecimal s \<Longrightarrow> new_Decimal (Str (CHR ''+'' # s)) = Inr (parseDecimal False s)"
  by (simp add: new_Decimal.simps)

lemma precision_sign: "precision z (parseDecimal True s) = precision z (parseDecimal False s)"
  by (simp add: parseDecimal_def Let_def split_beta)

lemma digitOf_0: "digitOf CHR ''0'' = 0"
  by (simp add: digitOf_def)

lemma leading_zero:
  assumes "isDigit c"
  shows "isDecimal (CHR ''0'' # c # s) = isDecimal (c # s)"
    and "parseDecimal sg (CHR ''0'' # c # s) = parseDecimal sg (c # s)"
proof -
  note ne = isDigit_not_sep [OF assms]
  obtain m ex where m: "cut ''eE'' s = (m, ex)"
    by (cases "cut ''eE'' s")
  obtain ip fp where ip: "cut ''.'' m = (ip, fp)"
    by (cases "cut ''.'' m")
  from ne m have 1: "cut ''eE'' (c # s) = (c # m, ex)"
    "cut ''eE'' (CHR ''0'' # c # s) = (CHR ''0'' # c # m, ex)"
    by (simp_all add: cut_Cons)
  from ne ip have 2: "cut ''.'' (c # m) = (c # ip, fp)"
    "cut ''.'' (CHR ''0'' # c # m) = (CHR ''0'' # c # ip, fp)"
    by (simp_all add: cut_Cons)
  have "isDigit CHR ''0''"
    by (simp add: isDigit_def)
  then show "isDecimal (CHR ''0'' # c # s) = isDecimal (c # s)"
    by (simp add: isDecimal_def 1 2 split: option.split)
  show "parseDecimal sg (CHR ''0'' # c # s) = parseDecimal sg (c # s)"
    by (simp add: parseDecimal_def 1 2 Let_def digitOf_0 stripZeros_Cons0)
qed

lemma leading_zero_new_Decimal:
  assumes "isDigit c" and "isDecimal (c # s)"
  shows "new_Decimal (Str (CHR ''0'' # c # s)) = new_Decimal (Str (c # s))"
  using isDigit_not_sep [OF assms(1)] leading_zero [OF assms(1)] assms(2)
  by (simp add: new_Decimal.simps)

lemma cut_digits:
  assumes "list_all isDigit s"
  shows "cut ''eE'' s = (s, None)" and "cut ''.'' s = (s, None)"
proof -
  from assms have "\<forall>c\<in>set s. c \<notin> set ''eE''"
    using isDigit_not_sep by (auto simp: list_all_iff)
  then show "cut ''eE'' s = (s, None)"
    by (rule cut_none)
  from assms have "\<forall>c\<in>set s. c \<notin> set ''.''"
    using isDigit_not_sep by (auto simp: list_all_iff)
  then show "cut ''.'' s = (s, None)"
    by (rule cut_none)
qed

lemma cut_fraction:
  assumes "list_all isDigit ip" and "list_all isDigit fp"
  shows "cut ''eE'' (ip @ CHR ''.'' # fp) = (ip @ CHR ''.'' # fp, None)"
    and "cut ''.'' (ip @ CHR ''.'' # fp) = (ip, Some fp)"
proof -
  from assms have "\<forall>c\<in>set (ip @ CHR ''.'' # fp). c \<notin> set ''eE''"
    using isDigit_not_sep by (auto simp: list_all_iff)
  then show "cut ''eE'' (ip @ CHR ''.'' # fp) = (ip @ CHR ''.'' # fp, None)"
    by (rule cut_none)
  from assms(1) have "\<forall>c\<in>set ip. c \<notin> set ''.''"
    using isDigit_not_sep by (auto simp: list_all_iff)
  then show "cut ''.'' (ip @ CHR ''.'' # fp) = (ip, Some fp)"
    by (rule cut_at) simp
qed

lemma isDecimal_integer: "list_all isDigit s \<Longrightarrow> s \<noteq> [] \<Longrightarrow> isDecimal s"
  by (simp add: isDecimal_def cut_digits)

lemma isDecimal_fraction:
  "list_all isDigit ip \<Longrightarrow> list_all isDigit fp \<Longrightarrow> ip @ fp \<noteq> [] \<Longrightarrow>
   isDecimal (ip @ CHR ''.'' # fp)"
  by (simp add: isDecimal_def cut_fraction)

lemma takeWhile_snoc0:
  assumes "stripZeros ds \<noteq> []"
  shows "takeWhile (\<lambda>d. d = 0) (ds @ [0]) = takeWhile (\<lambda>d. d = 0) ds"
proof -
  from assms obtain x where x: "x \<in> set ds" "\<not> x = 0"
    unfolding stripZeros_Nil_iff by blast
  show ?thesis
    by (rule takeWhile_append1 [of x ds "\<lambda>d. d = 0", OF x])
qed

lemma parseDecimal_plain:
  assumes "cut ''eE'' str = (str, None)" and "cut ''.'' str = (ip, fp)"
  shows "parseDecimal sg str =
    (let ds = map digitOf (ip @ (case fp of None \<Rightarrow> [] | Some f \<Rightarrow> f));
         i = length (takeWhile (\<lambda>d. d = 0) ds);
         d = stripZeros ds
     in if d \<noteq> [] then
          (let xe = int (length ip) - int i - 1
           in if xe > maxE then Infinity sg
              else if xe < minE then Finite sg [0] 0
              else Finite sg d xe)
        else Finite sg [0] 0)"
  by (simp add: parseDecimal_def assms Let_def)

lemma trailing_fraction_zero:
  assumes "list_all isDigit ip" and "list_all isDigit fp"
  shows "parseDecimal sg (ip @ CHR ''.'' # fp @ ''0'') = parseDecimal sg (ip @ CHR ''.'' # fp)"
proof -
  define ds where "ds = map digitOf (ip @ fp)"
  have fp0: "list_all isDigit (fp @ ''0'')"
    using assms(2) by (simp add: isDigit_def)
  have ds0: "map digitOf (ip @ fp @ ''0'') = ds @ [0]"
    by (simp add: digitOf_0 ds_def)
  have i: "length (takeWhile (\<lambda>d. d = 0) (ds @ [0])) = length (takeWhile (\<lambda>d. d = 0) ds)"
    if "stripZeros ds \<noteq> []"
    using takeWhile_snoc0 [OF that] by (rule arg_cong)
  have "parseDecimal sg (ip @ CHR ''.'' # fp @ ''0'') =
    (if stripZeros (ds @ [0]) \<noteq> [] then
       (let xe = int (length ip) - int (length (takeWhile (\<lambda>d. d = 0) (ds @ [0]))) - 1
        in if xe > maxE then Infinity sg
           else if xe < minE then Finite sg [0] 0
           else Finite sg (stripZeros (ds @ [0])) xe)
     else Finite sg [0] 0)"
    using parseDecimal_plain [OF cut_fraction [OF assms(1) fp0], of sg]
    by (simp only: option.case ds0 Let_def)
  also have "\<dots> =
    (if stripZeros ds \<noteq> [] then
       (let xe = int (length ip) - int (length (takeWhile (\<lambda>d. d = 0) ds)) - 1
        in if xe > maxE then Infinity sg
           else if xe < minE then Finite sg [0] 0
           else Finite sg (stripZeros ds) xe)
     else Finite sg [0] 0)"
    using i by (simp add: stripZeros_snoc0 Let_def)
  also have "\<dots> = parseDecimal sg (ip @ CHR ''.'' # fp)"
    using parseDecimal_plain [OF cut_fraction [OF assms], of sg]
    by (simp only: option.case ds_def Let_def)
  finally show ?thesis .
qed


lemma leading_zeros_digits:
  assumes "list_all isDigit s"
  shows "length (takeWhile (\<lambda>d. d = 0) (map digitOf s)) =
         length (takeWhile (\<lambda>c. c = CHR ''0'') s)"
proof -
  from assms have "\<And>c. c \<in> set s \<Longrightarrow> ((\<lambda>d. d = 0) \<circ> digitOf) c = (c = CHR ''0'')"
    by (simp add: list_all_iff digitOf_zero)
  then have "takeWhile ((\<lambda>d. d = 0) \<circ> digitOf) s = takeWhile (\<lambda>c. c = CHR ''0'') s"
    by (rule takeWhile_cong [OF refl])
  then show ?thesis
    by (simp only: takeWhile_map length_map)
qed

lemma length_takeWhile_dropWhile:
  "int (length xs) - int (length (takeWhile P xs)) = int (length (dropWhile P xs))"
proof -
  have "length (takeWhile P xs) + length (dropWhile P xs) = length xs"
    by (simp only: length_append [symmetric] takeWhile_dropWhile_id)
  then show ?thesis
    by arith
qed

lemma integer_digits:
  assumes "list_all isDigit s" and "\<exists>c\<in>set s. c \<noteq> CHR ''0''" and "int (length s) \<le> maxE"
  shows "precision True (parseDecimal sg s) =
         Number (int (length (dropWhile (\<lambda>c. c = CHR ''0'') s)))"
proof -
  define ds where "ds = map digitOf s"
  define i where "i = length (takeWhile (\<lambda>d. d = 0) ds)"
  from assms(2) obtain c where c: "c \<in> set s" "c \<noteq> CHR ''0''"
    by blast
  with assms(1) have "isDigit c"
    by (simp add: list_all_iff)
  with c(2) have "digitOf c \<noteq> 0"
    by (simp add: digitOf_zero)
  moreover from c(1) have "digitOf c \<in> set ds"
    by (simp add: ds_def)
  ultimately have "\<not> (\<forall>d\<in>set ds. d = 0)"
    by (rule_tac notI) (drule (1) bspec, simp)
  then have d: "stripZeros ds \<noteq> []"
    by (simp only: stripZeros_Nil_iff) simp
  have le: "length (stripZeros ds) + i \<le> length ds"
    unfolding i_def by (rule length_stripZeros_le)
  have len: "length ds = length s"
    by (simp add: ds_def)
  have xe: "int (length s) - int i = int (length (dropWhile (\<lambda>c. c = CHR ''0'') s))"
    unfolding i_def ds_def leading_zeros_digits [OF assms(1)]
    by (rule length_takeWhile_dropWhile)
  have "parseDecimal sg s =
    (if stripZeros ds \<noteq> [] then
       (let xe = int (length s) - int i - 1
        in if xe > maxE then Infinity sg
           else if xe < minE then Finite sg [0] 0
           else Finite sg (stripZeros ds) xe)
     else Finite sg [0] 0)"
    using parseDecimal_plain [OF cut_digits [OF assms(1)], of sg]
    by (simp add: ds_def i_def Let_def)
  also have "\<dots> = Finite sg (stripZeros ds) (int (length s) - int i - 1)"
    using d le len assms(3) by (simp add: Let_def minE_def maxE_def)
  finally have "parseDecimal sg s = Finite sg (stripZeros ds) (int (length s) - int i - 1)" .
  moreover from le len have "int (length (stripZeros ds)) \<le> int (length s) - int i"
    by simp
  ultimately have "precision True (parseDecimal sg s) = Number (int (length s) - int i)"
    by (simp add: Let_def)
  with xe show ?thesis
    by simp
qed

lemma whole_number_places:
  assumes "list_all isDigit s" and "int (length s) \<le> maxE"
  shows "decimalPlaces (parseDecimal sg s) = Number 0"
proof -
  define ds where "ds = map digitOf s"
  define i where "i = length (takeWhile (\<lambda>d. d = 0) ds)"
  have le: "length (stripZeros ds) + i \<le> length ds"
    unfolding i_def by (rule length_stripZeros_le)
  have len: "length ds = length s"
    by (simp add: ds_def)
  have "parseDecimal sg s =
    (if stripZeros ds \<noteq> [] then
       (let xe = int (length s) - int i - 1
        in if xe > maxE then Infinity sg
           else if xe < minE then Finite sg [0] 0
           else Finite sg (stripZeros ds) xe)
     else Finite sg [0] 0)"
    using parseDecimal_plain [OF cut_digits [OF assms(1)], of sg]
    by (simp add: ds_def i_def Let_def)
  with le len assms(2) show ?thesis
    by (simp add: Let_def minE_def maxE_def)
qed

lemma fraction_places:
  assumes "list_all isDigit ip" and "list_all isDigit fp"
    and "fp \<noteq> []" and "last fp \<noteq> CHR ''0''"
    and "int (length ip) \<le> maxE" and "int (length fp) \<le> maxE"
  shows "decimalPlaces (parseDecimal sg (ip @ CHR ''.'' # fp)) = Number (int (length fp))"
proof -
  define ds where "ds = map digitOf (ip @ fp)"
  define i where "i = length (takeWhile (\<lambda>d. d = 0) ds)"
  from assms(3) have ne: "ds \<noteq> []"
    by (simp add: ds_def)
  from assms(2,3) have "isDigit (last fp)"
    by (simp add: list_all_iff)
  with assms(3,4) have "last ds \<noteq> 0"
    by (simp add: ds_def last_map digitOf_zero)
  with ne have d: "stripZeros ds = dropWhile (\<lambda>d. d = 0) ds"
    by (rule stripZeros_last_nonzero)
  from ne \<open>last ds \<noteq> 0\<close> have nz: "stripZeros ds \<noteq> []"
    using last_in_set [OF ne] by (auto simp: stripZeros_Nil_iff)
  have len: "int (length (stripZeros ds)) = int (length ip) + int (length fp) - int i"
    unfolding d i_def using length_takeWhile_dropWhile [of ds "\<lambda>d. d = 0"]
    by (simp add: ds_def)
  from nz have "1 \<le> int (length (stripZeros ds))"
    by (cases "stripZeros ds") simp_all
  with len have pos: "1 \<le> int (length ip) + int (length fp) - int i"
    by simp
  have "parseDecimal sg (ip @ CHR ''.'' # fp) =
    (if stripZeros ds \<noteq> [] then
       (let xe = int (length ip) - int i - 1
        in if xe > maxE then Infinity sg
           else if xe < minE then Finite sg [0] 0
           else Finite sg (stripZeros ds) xe)
     else Finite sg [0] 0)"
    using parseDecimal_plain [OF cut_fraction [OF assms(1,2)], of sg]
    by (simp add: ds_def i_def Let_def)
  also have "\<dots> = Finite sg (stripZeros ds) (int (length ip) - int i - 1)"
    using nz pos assms(5,6) by (simp add: Let_def minE_def maxE_def)
  finally show ?thesis
    using len pos by simp
qed

section \<open>What one call does\<close>

text \<open>
  Four cases cover every call: an absent value, an arity \<open>match\<close> does not dispatch on,
  a value that does not parse and a value that does. In each the call allocates one
  result object at the end of the store and leaves everything else alone.
\<close>

lemma arity_cases:
  assumes "length (ps :: int list) \<le> 2"
  shows "ps = [] \<or> length ps = Suc 0 \<or> length ps = 2"
proof -
  from assms have "length ps = 0 \<or> length ps = 1 \<or> length ps = 2"
    by arith
  then show ?thesis
    by simp
qed

lemma new_Decimal_not_absent:
  "new_Decimal v = Inr n \<Longrightarrow> v \<noteq> Null \<and> v \<noteq> Undefined"
  by (cases v) (auto simp: new_Decimal.simps)

lemma match_absent:
  "v = Null \<or> v = Undefined \<Longrightarrow>
   match v \<sigma> = (None, \<sigma>\<lparr>heap := heap \<sigma> @ [\<lparr>errors = []\<rparr>]\<rparr>)"
  by (auto simp: match_def new_ValidationResult_def)

lemma match_other_arity:
  "2 < length (params (this \<sigma>)) \<Longrightarrow> v \<noteq> Null \<Longrightarrow> v \<noteq> Undefined \<Longrightarrow>
   match v \<sigma> = (None, \<sigma>\<lparr>heap := heap \<sigma> @ [\<lparr>errors = []\<rparr>]\<rparr>)"
  by (auto simp: match_def new_ValidationResult_def validateParamsLength_def)

lemma match_invalid:
  "new_Decimal v = Inl err \<Longrightarrow> v \<noteq> Null \<Longrightarrow> v \<noteq> Undefined \<Longrightarrow>
   length (params (this \<sigma>)) \<le> 2 \<Longrightarrow>
   match v \<sigma> =
     (Some (length (heap \<sigma>)), \<sigma>\<lparr>heap := heap \<sigma> @ [\<lparr>errors = [NOT_VALID]\<rparr>]\<rparr>)"
  using arity_cases [of "params (this \<sigma>)"]
  by (auto simp: match_def new_ValidationResult_def validateParamsLength_def
      processNoParamInput_def processOneParamInput_def processTwoParamsInput_def
      convertToDecimal_def validateMaxNumberOfDigits_def validateMaxNumberOfDecimalPlaces_def
      isExceededMaxNumberOfDigits_def isExceededMaxNumberOfDecimalPlaces_def gt_def
      addInvalidTypeError_def)

lemma match_parsed:
  "new_Decimal v = Inr n \<Longrightarrow> length (params (this \<sigma>)) \<le> 2 \<Longrightarrow>
   match v \<sigma> =
     (Some (length (heap \<sigma>)),
      \<sigma>\<lparr>heap := heap \<sigma> @
        [\<lparr>errors =
            (if gt (Some (precision True n))
                  (if params (this \<sigma>) = [] then Some (Number DEFAULT_DIGIT_LIMIT)
                   else param 0 \<sigma>)
             then [EXCEEDED_MAX_NUMBER_OF_DIGITS] else []) @
            (if length (params (this \<sigma>)) = 2 \<and> gt (Some (decimalPlaces n)) (param 1 \<sigma>)
             then [EXCEEDED_MAX_NUMBER_OF_DECIMAL_PLACES] else [])\<rparr>]\<rparr>)"
  using arity_cases [of "params (this \<sigma>)"] new_Decimal_not_absent [of v n]
  by (auto simp: match_def new_ValidationResult_def validateParamsLength_def
      processNoParamInput_def processOneParamInput_def processTwoParamsInput_def
      convertToDecimal_def validateMaxNumberOfDigits_def validateMaxNumberOfDecimalPlaces_def
      isExceededMaxNumberOfDigits_def isExceededMaxNumberOfDecimalPlaces_def param_def
      addInvalidTypeError_def)

text \<open>
  In every case the state after the call is the state before it with one more object at
  the end of the store, and the outcome is decided by the value and the matcher alone.
\<close>

lemma match_shape:
  "snd (match v \<sigma>) = \<sigma>\<lparr>heap := heap \<sigma> @ [last (heap (snd (match v \<sigma>)))]\<rparr> \<and>
   (fst (match v \<sigma>) = None \<or> fst (match v \<sigma>) = Some (length (heap \<sigma>)))"
proof (cases "v = Null \<or> v = Undefined")
  case True
  then show ?thesis
    by (auto simp: match_absent)
next
  case absent: False
  show ?thesis
  proof (cases "length (params (this \<sigma>)) \<le> 2")
    case False
    with absent show ?thesis
      by (simp add: match_other_arity)
  next
    case True
    show ?thesis
    proof (cases "new_Decimal v")
      case (Inl err)
      with absent True show ?thesis
        by (simp add: match_invalid)
    next
      case (Inr n)
      with True show ?thesis
        by (simp add: match_parsed)
    qed
  qed
qed

lemma match_keeps_this: "this (snd (match v \<sigma>)) = this \<sigma>"
  by (subst conjunct1 [OF match_shape]) simp

lemma outcome_same_matcher:
  assumes "this \<tau> = this \<sigma>"
  shows "outcome (match v \<tau>) = outcome (match v \<sigma>)"
proof (cases "v = Null \<or> v = Undefined")
  case True
  then show ?thesis
    by (auto simp: match_absent outcome_def)
next
  case absent: False
  show ?thesis
  proof (cases "length (params (this \<sigma>)) \<le> 2")
    case False
    with absent assms show ?thesis
      by (simp add: match_other_arity outcome_def)
  next
    case True
    show ?thesis
    proof (cases "new_Decimal v")
      case (Inl err)
      with absent True assms show ?thesis
        by (simp add: match_invalid outcome_def)
    next
      case (Inr n)
      with True assms show ?thesis
        by (simp add: match_parsed outcome_def param_def)
    qed
  qed
qed

lemma codes_distinct:
  "NOT_VALID \<noteq> EXCEEDED_MAX_NUMBER_OF_DIGITS"
  "NOT_VALID \<noteq> EXCEEDED_MAX_NUMBER_OF_DECIMAL_PLACES"
  "EXCEEDED_MAX_NUMBER_OF_DIGITS \<noteq> EXCEEDED_MAX_NUMBER_OF_DECIMAL_PLACES"
  "EXCEEDED_MAX_NUMBER_OF_DIGITS \<noteq> NOT_VALID"
  "EXCEEDED_MAX_NUMBER_OF_DECIMAL_PLACES \<noteq> NOT_VALID"
  "EXCEEDED_MAX_NUMBER_OF_DECIMAL_PLACES \<noteq> EXCEEDED_MAX_NUMBER_OF_DIGITS"
  by (simp_all add: NOT_VALID_def EXCEEDED_MAX_NUMBER_OF_DIGITS_def
      EXCEEDED_MAX_NUMBER_OF_DECIMAL_PLACES_def)

text \<open>Evaluating the parser on a literal.\<close>

lemmas parse_simps =
  new_Decimal.simps isDecimal_def cut_def isDigit_def parseDecimal_def parseOther_def
  isOtherNotation_def digitOf_def
  stripZeros_def maxE_def minE_def unsigned_def toInt_def

lemma totalDigits_parse:
  "isDecimal s \<Longrightarrow> totalDigits s = Some (precision True (parseDecimal False s))"
  by (simp add: totalDigits_def new_Decimal_unsigned)

lemma fractionDigits_parse:
  "isDecimal s \<Longrightarrow> fractionDigits s = Some (decimalPlaces (parseDecimal False s))"
  by (simp add: fractionDigits_def new_Decimal_unsigned)

section \<open>The total-digit check\<close>

text \<open>
  C1. For a value that parses and a configuration of at most two parameters, \<open>match\<close>
  appends \<open>EXCEEDED_MAX_NUMBER_OF_DIGITS\<close> exactly when \<open>precision(true)\<close> of the parsed
  number exceeds the applicable maximum: the first parameter, or 11 when there is none.
  The count of a decimal text does not depend on its sign, on a leading zero or on a
  trailing zero of its fraction. Trailing zeros of the integer part are counted: a whole
  number counts every digit after its leading zeros.
\<close>

theorem total_digit_violation:
  "(new_Decimal v = Inr n \<and> length (params (this \<sigma>)) \<le> 2 \<longrightarrow>
      (\<exists>r. outcome (match v \<sigma>) = Some r \<and>
        (EXCEEDED_MAX_NUMBER_OF_DIGITS \<in> set (errors r) \<longleftrightarrow>
           gt (Some (precision True n))
              (if params (this \<sigma>) = [] then Some (Number 11)
               else Some (Number (hd (params (this \<sigma>)))))))) \<and>
   (isDecimal s \<longrightarrow>
      totalDigits (CHR ''-'' # s) = totalDigits s \<and> totalDigits (CHR ''+'' # s) = totalDigits s) \<and>
   (isDigit c \<and> isDecimal (c # t) \<longrightarrow>
      totalDigits (CHR ''0'' # c # t) = totalDigits (c # t)) \<and>
   (list_all isDigit ip \<and> list_all isDigit fp \<and> ip @ fp \<noteq> [] \<longrightarrow>
      totalDigits (ip @ ''.'' @ fp @ ''0'') = totalDigits (ip @ ''.'' @ fp)) \<and>
   (list_all isDigit w \<and> (\<exists>d\<in>set w. d \<noteq> CHR ''0'') \<and> int (length w) \<le> maxE \<longrightarrow>
      totalDigits w = Some (Number (int (length (dropWhile (\<lambda>d. d = CHR ''0'') w)))))"
proof (intro conjI impI)
  assume "new_Decimal v = Inr n \<and> length (params (this \<sigma>)) \<le> 2"
  then show "\<exists>r. outcome (match v \<sigma>) = Some r \<and>
        (EXCEEDED_MAX_NUMBER_OF_DIGITS \<in> set (errors r) \<longleftrightarrow>
           gt (Some (precision True n))
              (if params (this \<sigma>) = [] then Some (Number 11)
               else Some (Number (hd (params (this \<sigma>))))))"
    by (cases "params (this \<sigma>)")
      (simp_all add: match_parsed outcome_def param_def codes_distinct DEFAULT_DIGIT_LIMIT_def)
next
  assume "isDecimal s"
  then show "totalDigits (CHR ''-'' # s) = totalDigits s"
    by (simp add: totalDigits_def new_Decimal_unsigned new_Decimal_minus precision_sign)
next
  assume "isDecimal s"
  then show "totalDigits (CHR ''+'' # s) = totalDigits s"
    by (simp add: totalDigits_def new_Decimal_unsigned new_Decimal_plus)
next
  assume "isDigit c \<and> isDecimal (c # t)"
  then have "new_Decimal (Str (CHR ''0'' # c # t)) = new_Decimal (Str (c # t))"
    by (simp add: leading_zero_new_Decimal)
  then show "totalDigits (CHR ''0'' # c # t) = totalDigits (c # t)"
    by (simp only: totalDigits_def)
next
  assume a: "list_all isDigit ip \<and> list_all isDigit fp \<and> ip @ fp \<noteq> []"
  then have "list_all isDigit (fp @ ''0'')"
    by (simp add: isDigit_def)
  with a have "isDecimal (ip @ CHR ''.'' # fp)" "isDecimal (ip @ CHR ''.'' # fp @ ''0'')"
    by (simp_all add: isDecimal_fraction)
  with a show "totalDigits (ip @ ''.'' @ fp @ ''0'') = totalDigits (ip @ ''.'' @ fp)"
    by (simp add: totalDigits_parse trailing_fraction_zero)
next
  assume a: "list_all isDigit w \<and> (\<exists>d\<in>set w. d \<noteq> CHR ''0'') \<and> int (length w) \<le> maxE"
  then have "w \<noteq> []"
    by auto
  with a have "isDecimal w"
    by (simp add: isDecimal_integer)
  with a show "totalDigits w = Some (Number (int (length (dropWhile (\<lambda>d. d = CHR ''0'') w))))"
    by (simp add: totalDigits_parse integer_digits)
qed

text \<open>The theorem at concrete inputs: \<open>12345\<close> against a maximum of 4, and sample texts.\<close>

theorem total_digit_violation_witness:
  "new_Decimal (Str ''12345'') = Inr (Finite False [1, 2, 3, 4, 5] 4) \<and>
   length (params (this (start [4]))) \<le> 2 \<and>
   (\<exists>r. outcome (match (Str ''12345'') (start [4])) = Some r \<and>
      (EXCEEDED_MAX_NUMBER_OF_DIGITS \<in> set (errors r) \<longleftrightarrow>
         gt (Some (precision True (Finite False [1, 2, 3, 4, 5] 4))) (Some (Number 4)))) \<and>
   gt (Some (precision True (Finite False [1, 2, 3, 4, 5] 4))) (Some (Number 4)) \<and>
   isDecimal ''12.5'' \<and>
   totalDigits ''-12.5'' = totalDigits ''12.5'' \<and>
   totalDigits ''+12.5'' = totalDigits ''12.5'' \<and>
   isDigit CHR ''7'' \<and> isDecimal ''7.5'' \<and>
   totalDigits ''07.5'' = totalDigits ''7.5'' \<and>
   list_all isDigit ''12'' \<and> list_all isDigit ''5'' \<and>
   totalDigits ''12.50'' = totalDigits ''12.5'' \<and>
   totalDigits ''12.5'' = Some (Number 3) \<and>
   list_all isDigit ''1200'' \<and> (\<exists>d\<in>set ''1200''. d \<noteq> CHR ''0'') \<and> int (length ''1200'') \<le> maxE \<and>
   totalDigits ''1200'' = Some (Number 4)"
proof -
  have p: "new_Decimal (Str ''12345'') = Inr (Finite False [1, 2, 3, 4, 5] 4)"
    by (simp add: parse_simps)
  have h1: "new_Decimal (Str ''12345'') = Inr (Finite False [1, 2, 3, 4, 5] 4) \<and>
      length (params (this (start [4]))) \<le> 2"
    using p by (simp add: start_def constructor_def)
  have h2: "isDecimal ''12.5''"
    by (simp add: parse_simps)
  have h3: "isDigit CHR ''7'' \<and> isDecimal ''7.5''"
    by (simp add: parse_simps)
  have h4: "list_all isDigit ''12'' \<and> list_all isDigit ''5'' \<and> ''12'' @ ''5'' \<noteq> []"
    by (simp add: isDigit_def)
  have h5: "list_all isDigit ''1200'' \<and> (\<exists>d\<in>set ''1200''. d \<noteq> CHR ''0'') \<and>
      int (length ''1200'') \<le> maxE"
    by (simp add: isDigit_def maxE_def)
  have t: "totalDigits ''12.5'' = Some (Number 3)"
    by (simp add: totalDigits_def parse_simps)
  note inst = total_digit_violation [of "Str ''12345''" "Finite False [1, 2, 3, 4, 5] 4" "start [4]"
      "''12.5''" "CHR ''7''" "''.5''" "''12''" "''5''" "''1200''"]
  from inst h1 h2 h3 h4 h5 t show ?thesis
    by (simp add: start_def constructor_def gt_def)
qed

text \<open>
  Two inputs at which the count of significant digits without trailing zeros, or a
  configuration of more than two parameters, parts from what \<open>match\<close> does. With
  trailing zeros left out, \<open>100000000000\<close> has one significant digit, which does not
  exceed 11; \<open>match\<close> counts twelve and reports the violation. Under the three parameters
  (4, 2, 1) the five digits of \<open>12345\<close> exceed the first parameter, and \<open>match\<close> appends
  nothing and returns \<open>undefined\<close>.
\<close>

theorem total_digit_counterexample:
  "new_Decimal (Str ''100000000000'') = Inr (Finite False [1] 11) \<and>
   precision False (Finite False [1] 11) = Number 1 \<and>
   precision True (Finite False [1] 11) = Number 12 \<and>
   outcome (match (Str ''100000000000'') (start [])) =
     Some \<lparr>errors = [EXCEEDED_MAX_NUMBER_OF_DIGITS]\<rparr> \<and>
   \<not> (EXCEEDED_MAX_NUMBER_OF_DIGITS \<in>
        set (errors (the (outcome (match (Str ''100000000000'') (start []))))) \<longleftrightarrow>
      gt (Some (precision False (Finite False [1] 11))) (Some (Number 11))) \<and>
   new_Decimal (Str ''12345'') = Inr (Finite False [1, 2, 3, 4, 5] 4) \<and>
   params (this (start [4, 2, 1])) = [4, 2, 1] \<and>
   gt (Some (precision True (Finite False [1, 2, 3, 4, 5] 4))) (Some (Number 4)) \<and>
   match (Str ''12345'') (start [4, 2, 1]) =
     (None, \<lparr>this = constructor [4, 2, 1], heap = [\<lparr>errors = []\<rparr>]\<rparr>) \<and>
   outcome (match (Str ''12345'') (start [4, 2, 1])) = None"
proof -
  have p: "new_Decimal (Str ''100000000000'') = Inr (Finite False [1] 11)"
    by (simp add: parse_simps)
  have "length (params (this (start []))) \<le> 2"
    by (simp add: start_def constructor_def)
  from match_parsed [OF p this]
  have zeros: "outcome (match (Str ''100000000000'') (start [])) =
     Some \<lparr>errors = [EXCEEDED_MAX_NUMBER_OF_DIGITS]\<rparr>"
    by (simp add: outcome_def start_def constructor_def gt_def DEFAULT_DIGIT_LIMIT_def)
  have q: "new_Decimal (Str ''12345'') = Inr (Finite False [1, 2, 3, 4, 5] 4)"
    by (simp add: parse_simps)
  have "2 < length (params (this (start [4, 2, 1])))"
    by (simp add: start_def constructor_def)
  then have three: "match (Str ''12345'') (start [4, 2, 1]) =
     (None, \<lparr>this = constructor [4, 2, 1], heap = [\<lparr>errors = []\<rparr>]\<rparr>)"
    by (simp add: match_other_arity start_def)
  from p zeros q three show ?thesis
    by (simp add: gt_def outcome_def start_def constructor_def)
qed

section \<open>The decimal-places check\<close>

text \<open>
  C2. With two parameters and a value that parses, \<open>match\<close> appends
  \<open>EXCEEDED_MAX_NUMBER_OF_DECIMAL_PLACES\<close> exactly when \<open>decimalPlaces()\<close> of the parsed
  number exceeds the second parameter; with no parameter or one, the violation never
  appears in the outcome. The count is zero for a whole number, it is the length of a
  fraction that does not end in zero, and a trailing zero of the fraction does not change
  it.
\<close>

theorem decimal_places_violation:
  "(new_Decimal v = Inr n \<and> params (this \<sigma>) = [a, b] \<longrightarrow>
      (\<exists>r. outcome (match v \<sigma>) = Some r \<and>
        (EXCEEDED_MAX_NUMBER_OF_DECIMAL_PLACES \<in> set (errors r) \<longleftrightarrow>
           gt (Some (decimalPlaces n)) (Some (Number b))))) \<and>
   (length (params (this \<sigma>)) \<le> 1 \<longrightarrow>
      (\<forall>r. outcome (match v \<sigma>) = Some r \<longrightarrow>
        EXCEEDED_MAX_NUMBER_OF_DECIMAL_PLACES \<notin> set (errors r))) \<and>
   (list_all isDigit w \<and> w \<noteq> [] \<and> int (length w) \<le> maxE \<longrightarrow>
      fractionDigits w = Some (Number 0)) \<and>
   (list_all isDigit ip \<and> list_all isDigit fp \<and> fp \<noteq> [] \<and> last fp \<noteq> CHR ''0'' \<and>
    int (length ip) \<le> maxE \<and> int (length fp) \<le> maxE \<longrightarrow>
      fractionDigits (ip @ ''.'' @ fp) = Some (Number (int (length fp)))) \<and>
   (list_all isDigit ip \<and> list_all isDigit fp \<and> ip @ fp \<noteq> [] \<longrightarrow>
      fractionDigits (ip @ ''.'' @ fp @ ''0'') = fractionDigits (ip @ ''.'' @ fp))"
proof (intro conjI impI allI)
  assume "new_Decimal v = Inr n \<and> params (this \<sigma>) = [a, b]"
  then show "\<exists>r. outcome (match v \<sigma>) = Some r \<and>
        (EXCEEDED_MAX_NUMBER_OF_DECIMAL_PLACES \<in> set (errors r) \<longleftrightarrow>
           gt (Some (decimalPlaces n)) (Some (Number b)))"
    by (simp add: match_parsed outcome_def param_def codes_distinct)
next
  fix r
  assume le: "length (params (this \<sigma>)) \<le> 1" and out: "outcome (match v \<sigma>) = Some r"
  show "EXCEEDED_MAX_NUMBER_OF_DECIMAL_PLACES \<notin> set (errors r)"
  proof (cases "v = Null \<or> v = Undefined")
    case True
    with out show ?thesis
      by (simp add: match_absent outcome_def)
  next
    case False
    show ?thesis
    proof (cases "new_Decimal v")
      case (Inl err)
      with False le out show ?thesis
        by (auto simp: match_invalid outcome_def codes_distinct)
    next
      case (Inr m)
      with le out show ?thesis
        by (auto simp: match_parsed outcome_def codes_distinct split: if_splits)
    qed
  qed
next
  assume a: "list_all isDigit w \<and> w \<noteq> [] \<and> int (length w) \<le> maxE"
  then have "isDecimal w"
    by (simp add: isDecimal_integer)
  with a show "fractionDigits w = Some (Number 0)"
    by (simp add: fractionDigits_parse whole_number_places)
next
  assume a: "list_all isDigit ip \<and> list_all isDigit fp \<and> fp \<noteq> [] \<and> last fp \<noteq> CHR ''0'' \<and>
    int (length ip) \<le> maxE \<and> int (length fp) \<le> maxE"
  then have "isDecimal (ip @ CHR ''.'' # fp)"
    by (simp add: isDecimal_fraction)
  with a show "fractionDigits (ip @ ''.'' @ fp) = Some (Number (int (length fp)))"
    by (simp add: fractionDigits_parse fraction_places)
next
  assume a: "list_all isDigit ip \<and> list_all isDigit fp \<and> ip @ fp \<noteq> []"
  then have "list_all isDigit (fp @ ''0'')"
    by (simp add: isDigit_def)
  with a have "isDecimal (ip @ CHR ''.'' # fp)" "isDecimal (ip @ CHR ''.'' # fp @ ''0'')"
    by (simp_all add: isDecimal_fraction)
  with a show "fractionDigits (ip @ ''.'' @ fp @ ''0'') = fractionDigits (ip @ ''.'' @ fp)"
    by (simp add: fractionDigits_parse trailing_fraction_zero)
qed

text \<open>
  The theorem at \<open>1.234\<close>: three decimal places against a maximum of two, and against a
  single parameter.
\<close>

theorem decimal_places_violation_witness:
  "new_Decimal (Str ''1.234'') = Inr (Finite False [1, 2, 3, 4] 0) \<and>
   params (this (start [6, 2])) = [6, 2] \<and>
   (\<exists>r. outcome (match (Str ''1.234'') (start [6, 2])) = Some r \<and>
      (EXCEEDED_MAX_NUMBER_OF_DECIMAL_PLACES \<in> set (errors r) \<longleftrightarrow>
         gt (Some (decimalPlaces (Finite False [1, 2, 3, 4] 0))) (Some (Number 2)))) \<and>
   gt (Some (decimalPlaces (Finite False [1, 2, 3, 4] 0))) (Some (Number 2)) \<and>
   length (params (this (start [6]))) \<le> 1 \<and>
   outcome (match (Str ''1.234'') (start [6])) = Some \<lparr>errors = []\<rparr> \<and>
   EXCEEDED_MAX_NUMBER_OF_DECIMAL_PLACES \<notin> set (errors \<lparr>errors = []\<rparr>) \<and>
   list_all isDigit ''1200'' \<and> int (length ''1200'') \<le> maxE \<and>
   fractionDigits ''1200'' = Some (Number 0) \<and>
   list_all isDigit ''1'' \<and> list_all isDigit ''234'' \<and> last ''234'' \<noteq> CHR ''0'' \<and>
   fractionDigits ''1.234'' = Some (Number 3) \<and>
   fractionDigits ''1.2340'' = fractionDigits ''1.234''"
proof -
  have p: "new_Decimal (Str ''1.234'') = Inr (Finite False [1, 2, 3, 4] 0)"
    by (simp add: parse_simps)
  have h1: "new_Decimal (Str ''1.234'') = Inr (Finite False [1, 2, 3, 4] 0) \<and>
      params (this (start [6, 2])) = [6, 2]"
    using p by (simp add: start_def constructor_def)
  have h2: "length (params (this (start [6]))) \<le> 1"
    by (simp add: start_def constructor_def)
  have o: "outcome (match (Str ''1.234'') (start [6])) = Some \<lparr>errors = []\<rparr>"
    using match_parsed [OF p, of "start [6]"]
    by (simp add: outcome_def start_def constructor_def gt_def param_def)
  have h3: "list_all isDigit ''1200'' \<and> ''1200'' \<noteq> [] \<and> int (length ''1200'') \<le> maxE"
    by (simp add: isDigit_def maxE_def)
  have h4: "list_all isDigit ''1'' \<and> list_all isDigit ''234'' \<and> ''234'' \<noteq> [] \<and>
      last ''234'' \<noteq> CHR ''0'' \<and> int (length ''1'') \<le> maxE \<and> int (length ''234'') \<le> maxE"
    by (simp add: isDigit_def maxE_def)
  have h5: "list_all isDigit ''1'' \<and> list_all isDigit ''234'' \<and> ''1'' @ ''234'' \<noteq> []"
    by (simp add: isDigit_def)
  note two = decimal_places_violation [of "Str ''1.234''" "Finite False [1, 2, 3, 4] 0"
      "start [6, 2]" 6 2 "''1200''" "''1''" "''234''"]
  note one = decimal_places_violation [of "Str ''1.234''" "Finite False [1, 2, 3, 4] 0"
      "start [6]" 6 2 "''1200''" "''1''" "''234''"]
  from two h1 h3 h4 h5 have
    "(\<exists>r. outcome (match (Str ''1.234'') (start [6, 2])) = Some r \<and>
      (EXCEEDED_MAX_NUMBER_OF_DECIMAL_PLACES \<in> set (errors r) \<longleftrightarrow>
         gt (Some (decimalPlaces (Finite False [1, 2, 3, 4] 0))) (Some (Number 2))))"
    "fractionDigits ''1200'' = Some (Number 0)"
    "fractionDigits ''1.234'' = Some (Number 3)"
    "fractionDigits ''1.2340'' = fractionDigits ''1.234''"
    by simp_all
  moreover from one h2 o have "EXCEEDED_MAX_NUMBER_OF_DECIMAL_PLACES \<notin> set (errors \<lparr>errors = []\<rparr>)"
    by simp
  ultimately show ?thesis
    using p h1 h2 o h3 h4 by (simp add: gt_def)
qed

section \<open>Text that does not parse\<close>

text \<open>
  C3. For text that \<open>new Decimal\<close> rejects, under a configuration of zero, one or two
  parameters, the outcome of \<open>match\<close> holds exactly one violation, \<open>NOT_VALID\<close>: the
  converted number is \<open>null\<close>, and neither digit-count query on \<open>null\<close> signals a
  violation, whatever the maximum. Under more parameters the call returns no outcome.
\<close>

theorem unparseable_text_one_violation:
  assumes "new_Decimal (Str s) = Inl err" and "length (params (this \<sigma>)) \<le> 2"
  shows "outcome (match (Str s) \<sigma>) = Some \<lparr>errors = [NOT_VALID]\<rparr> \<and>
         fst (convertToDecimal (Str s) r \<sigma>) = None \<and>
         \<not> isExceededMaxNumberOfDigits None m \<sigma> \<and>
         \<not> isExceededMaxNumberOfDecimalPlaces None \<sigma>"
  using assms
  by (simp add: match_invalid outcome_def convertToDecimal_def isExceededMaxNumberOfDigits_def
      isExceededMaxNumberOfDecimalPlaces_def gt_def)

text \<open>The theorem at \<open>abc\<close>, under each of the three arities.\<close>

theorem unparseable_text_one_violation_witness:
  "new_Decimal (Str ''abc'') = Inl (Error ''[DecimalError] Invalid argument: abc'') \<and>
   length (params (this (start []))) \<le> 2 \<and>
   length (params (this (start [4]))) \<le> 2 \<and>
   length (params (this (start [4, 2]))) \<le> 2 \<and>
   outcome (match (Str ''abc'') (start [])) = Some \<lparr>errors = [NOT_VALID]\<rparr> \<and>
   outcome (match (Str ''abc'') (start [4])) = Some \<lparr>errors = [NOT_VALID]\<rparr> \<and>
   outcome (match (Str ''abc'') (start [4, 2])) = Some \<lparr>errors = [NOT_VALID]\<rparr> \<and>
   \<not> isExceededMaxNumberOfDigits None (Some (Number 4)) (start [4, 2]) \<and>
   \<not> isExceededMaxNumberOfDecimalPlaces None (start [4, 2])"
proof -
  have p: "new_Decimal (Str ''abc'') = Inl (Error ''[DecimalError] Invalid argument: abc'')"
    by (simp add: parse_simps)
  have l: "length (params (this (start []))) \<le> 2" "length (params (this (start [4]))) \<le> 2"
    "length (params (this (start [4, 2]))) \<le> 2"
    by (simp_all add: start_def constructor_def)
  from unparseable_text_one_violation [OF p l(1)] unparseable_text_one_violation [OF p l(2)]
    unparseable_text_one_violation [OF p l(3), of 0 "Some (Number 4)"] p l
  show ?thesis
    by simp
qed

text \<open>
  Under the three parameters (4, 2, 1) the text \<open>abc\<close> is rejected by \<open>new Decimal\<close> as
  before, but \<open>match\<close> takes no branch: it returns \<open>undefined\<close>, and its result object
  holds no \<open>NOT_VALID\<close>.
\<close>

theorem unparseable_text_three_params:
  "new_Decimal (Str ''abc'') = Inl (Error ''[DecimalError] Invalid argument: abc'') \<and>
   params (this (start [4, 2, 1])) = [4, 2, 1] \<and>
   match (Str ''abc'') (start [4, 2, 1]) =
     (None, \<lparr>this = constructor [4, 2, 1], heap = [\<lparr>errors = []\<rparr>]\<rparr>) \<and>
   outcome (match (Str ''abc'') (start [4, 2, 1])) = None \<and>
   outcome (match (Str ''abc'') (start [4, 2, 1])) \<noteq> Some \<lparr>errors = [NOT_VALID]\<rparr>"
proof -
  have p: "new_Decimal (Str ''abc'') = Inl (Error ''[DecimalError] Invalid argument: abc'')"
    by (simp add: parse_simps)
  have "2 < length (params (this (start [4, 2, 1])))"
    by (simp add: start_def constructor_def)
  then have "match (Str ''abc'') (start [4, 2, 1]) =
     (None, \<lparr>this = constructor [4, 2, 1], heap = [\<lparr>errors = []\<rparr>]\<rparr>)"
    by (simp add: match_other_arity start_def)
  with p show ?thesis
    by (simp add: outcome_def start_def constructor_def)
qed

section \<open>An absent value\<close>

text \<open>
  C4. For \<open>null\<close> and for \<open>undefined\<close>, under every configuration, \<open>match\<close> skips the
  dispatch and reaches the end of the function without a \<open>return\<close>: the empty result
  object it created is dropped, the call yields \<open>undefined\<close>, and the caller receives no
  outcome, not an outcome with zero violations.
\<close>

theorem absent_value_returns_undefined:
  "match Null \<sigma> = (None, \<sigma>\<lparr>heap := heap \<sigma> @ [\<lparr>errors = []\<rparr>]\<rparr>) \<and>
   match Undefined \<sigma> = (None, \<sigma>\<lparr>heap := heap \<sigma> @ [\<lparr>errors = []\<rparr>]\<rparr>) \<and>
   outcome (match Null \<sigma>) = None \<and> outcome (match Undefined \<sigma>) = None \<and>
   outcome (match Null (start [])) \<noteq> Some \<lparr>errors = []\<rparr>"
  by (simp add: match_absent outcome_def)

section \<open>Two parameters: both checks\<close>

text \<open>
  C5. With two parameters and a value that parses, each check decides alone whether its
  violation is in the outcome, once if its bound is exceeded and not at all otherwise;
  \<open>NOT_VALID\<close> is not. With the configuration (3, 1) and the value \<open>12.34\<close> the outcome
  holds two violations, each of the two kinds once.
\<close>

theorem two_params_independent_checks:
  "(new_Decimal v = Inr n \<and> params (this \<sigma>) = [a, b] \<longrightarrow>
     (\<exists>r. outcome (match v \<sigma>) = Some r \<and>
        count_list (errors r) EXCEEDED_MAX_NUMBER_OF_DIGITS =
          (if gt (Some (precision True n)) (Some (Number a)) then 1 else 0) \<and>
        count_list (errors r) EXCEEDED_MAX_NUMBER_OF_DECIMAL_PLACES =
          (if gt (Some (decimalPlaces n)) (Some (Number b)) then 1 else 0) \<and>
        count_list (errors r) NOT_VALID = 0)) \<and>
   (\<exists>r. outcome (match (Str ''12.34'') (start [3, 1])) = Some r \<and>
      count_list (errors r) EXCEEDED_MAX_NUMBER_OF_DIGITS = 1 \<and>
      count_list (errors r) EXCEEDED_MAX_NUMBER_OF_DECIMAL_PLACES = 1 \<and>
      length (errors r) = 2)"
proof (intro conjI impI)
  assume "new_Decimal v = Inr n \<and> params (this \<sigma>) = [a, b]"
  then show "\<exists>r. outcome (match v \<sigma>) = Some r \<and>
        count_list (errors r) EXCEEDED_MAX_NUMBER_OF_DIGITS =
          (if gt (Some (precision True n)) (Some (Number a)) then 1 else 0) \<and>
        count_list (errors r) EXCEEDED_MAX_NUMBER_OF_DECIMAL_PLACES =
          (if gt (Some (decimalPlaces n)) (Some (Number b)) then 1 else 0) \<and>
        count_list (errors r) NOT_VALID = 0"
    by (simp add: match_parsed outcome_def param_def codes_distinct)
next
  have p: "new_Decimal (Str ''12.34'') = Inr (Finite False [1, 2, 3, 4] 1)"
    by (simp add: parse_simps)
  have "length (params (this (start [3, 1]))) \<le> 2"
    by (simp add: start_def constructor_def)
  from match_parsed [OF p this]
  show "\<exists>r. outcome (match (Str ''12.34'') (start [3, 1])) = Some r \<and>
      count_list (errors r) EXCEEDED_MAX_NUMBER_OF_DIGITS = 1 \<and>
      count_list (errors r) EXCEEDED_MAX_NUMBER_OF_DECIMAL_PLACES = 1 \<and>
      length (errors r) = 2"
    by (simp add: outcome_def start_def constructor_def gt_def param_def codes_distinct)
qed

text \<open>The theorem at \<open>1.234\<close> under (6, 2): only the decimal places are exceeded.\<close>

theorem two_params_independent_checks_witness:
  "new_Decimal (Str ''1.234'') = Inr (Finite False [1, 2, 3, 4] 0) \<and>
   params (this (start [6, 2])) = [6, 2] \<and>
   (\<exists>r. outcome (match (Str ''1.234'') (start [6, 2])) = Some r \<and>
      count_list (errors r) EXCEEDED_MAX_NUMBER_OF_DIGITS = 0 \<and>
      count_list (errors r) EXCEEDED_MAX_NUMBER_OF_DECIMAL_PLACES = 1 \<and>
      count_list (errors r) NOT_VALID = 0)"
proof -
  have h: "new_Decimal (Str ''1.234'') = Inr (Finite False [1, 2, 3, 4] 0) \<and>
      params (this (start [6, 2])) = [6, 2]"
    by (simp add: parse_simps start_def constructor_def)
  from two_params_independent_checks
    [of "Str ''1.234''" "Finite False [1, 2, 3, 4] 0" "start [6, 2]" 6 2] h
  show ?thesis
    by (simp add: gt_def)
qed

section \<open>No parameter is the default limit\<close>

text \<open>
  C6. For every value, \<open>match\<close> of a matcher constructed without parameters and \<open>match\<close>
  of a matcher constructed with the single parameter 11 return the same: the same outcome
  object contents, or \<open>undefined\<close> both.
\<close>

theorem no_params_is_default_limit:
  "outcome (match v (\<sigma>\<lparr>this := constructor []\<rparr>)) =
   outcome (match v (\<sigma>\<lparr>this := constructor [DEFAULT_DIGIT_LIMIT]\<rparr>)) \<and>
   fst (match v (\<sigma>\<lparr>this := constructor []\<rparr>)) =
   fst (match v (\<sigma>\<lparr>this := constructor [DEFAULT_DIGIT_LIMIT]\<rparr>)) \<and>
   DEFAULT_DIGIT_LIMIT = 11"
proof (cases "v = Null \<or> v = Undefined")
  case True
  then show ?thesis
    by (auto simp: match_absent outcome_def DEFAULT_DIGIT_LIMIT_def)
next
  case False
  show ?thesis
  proof (cases "new_Decimal v")
    case (Inl err)
    with False show ?thesis
      by (simp add: match_invalid outcome_def constructor_def DEFAULT_DIGIT_LIMIT_def)
  next
    case (Inr n)
    then show ?thesis
      by (simp add: match_parsed outcome_def constructor_def param_def DEFAULT_DIGIT_LIMIT_def)
  qed
qed

section \<open>Other arities\<close>

text \<open>
  C7. For a value that is not absent, under a configuration whose length is not 0, 1 or
  2, no branch of \<open>match\<close> is taken: the call returns \<open>undefined\<close>, and the result object
  it allocated stays empty; nothing else in the state changes.
\<close>

theorem other_arity_no_result:
  assumes "length (params (this \<sigma>)) \<notin> {0, 1, 2}" and "v \<noteq> Null" and "v \<noteq> Undefined"
  shows "match v \<sigma> = (None, \<sigma>\<lparr>heap := heap \<sigma> @ [\<lparr>errors = []\<rparr>]\<rparr>) \<and>
         outcome (match v \<sigma>) = None"
proof -
  from assms(1) have "length (params (this \<sigma>)) \<noteq> 0 \<and> length (params (this \<sigma>)) \<noteq> 1 \<and>
      length (params (this \<sigma>)) \<noteq> 2"
    by blast
  then have "2 < length (params (this \<sigma>))"
    by arith
  with assms(2,3) show ?thesis
    by (simp add: match_other_arity outcome_def)
qed

text \<open>The theorem at three parameters.\<close>

theorem other_arity_no_result_witness:
  "length (params (this (start [4, 2, 1]))) \<notin> {0, 1, 2} \<and>
   Str ''123456.789'' \<noteq> Null \<and> Str ''123456.789'' \<noteq> Undefined \<and>
   match (Str ''123456.789'') (start [4, 2, 1]) =
     (None, \<lparr>this = constructor [4, 2, 1], heap = [\<lparr>errors = []\<rparr>]\<rparr>) \<and>
   outcome (match (Str ''123456.789'') (start [4, 2, 1])) = None"
proof -
  have h: "length (params (this (start [4, 2, 1]))) \<notin> {0, 1, 2}"
    by (simp add: start_def constructor_def)
  from other_arity_no_result [OF h, of "Str ''123456.789''"] h show ?thesis
    by (simp add: start_def outcome_def)
qed

section \<open>Repeated calls\<close>

text \<open>
  C8. The outcome of \<open>match\<close> depends on the value and on the matcher's parameters only:
  two calls with the same value on states holding the same matcher yield equal outcomes,
  so the same violation codes in the same number; in particular a second call, made in
  the state the first call left, yields the outcome of the first.
\<close>

theorem match_deterministic:
  "(this \<sigma>' = this \<sigma> \<longrightarrow>
      outcome (match v \<sigma>') = outcome (match v \<sigma>) \<and>
      map_option (\<lambda>r. map fst (errors r)) (outcome (match v \<sigma>')) =
      map_option (\<lambda>r. map fst (errors r)) (outcome (match v \<sigma>))) \<and>
   outcome (match v (snd (match v \<sigma>))) = outcome (match v \<sigma>)"
proof (intro conjI impI)
  assume eq: "this \<sigma>' = this \<sigma>"
  then show same: "outcome (match v \<sigma>') = outcome (match v \<sigma>)"
    by (rule outcome_same_matcher)
  then show "map_option (\<lambda>r. map fst (errors r)) (outcome (match v \<sigma>')) =
      map_option (\<lambda>r. map fst (errors r)) (outcome (match v \<sigma>))"
    by (rule arg_cong)
next
  show "outcome (match v (snd (match v \<sigma>))) = outcome (match v \<sigma>)"
    using match_keeps_this by (rule outcome_same_matcher)
qed

text \<open>The theorem at two successive calls on \<open>12.345\<close> under (4, 2).\<close>

theorem match_deterministic_witness:
  "this (snd (match (Str ''12.345'') (start [4, 2]))) = this (start [4, 2]) \<and>
   outcome (match (Str ''12.345'') (snd (match (Str ''12.345'') (start [4, 2])))) =
   outcome (match (Str ''12.345'') (start [4, 2])) \<and>
   outcome (match (Str ''12.345'') (start [4, 2])) =
     Some \<lparr>errors = [EXCEEDED_MAX_NUMBER_OF_DIGITS, EXCEEDED_MAX_NUMBER_OF_DECIMAL_PLACES]\<rparr>"
proof -
  have p: "new_Decimal (Str ''12.345'') = Inr (Finite False [1, 2, 3, 4, 5] 1)"
    by (simp add: parse_simps)
  have "length (params (this (start [4, 2]))) \<le> 2"
    by (simp add: start_def constructor_def)
  note m = match_parsed [OF p this]
  have h: "this (snd (match (Str ''12.345'') (start [4, 2]))) = this (start [4, 2])"
    by (simp add: m)
  have o: "outcome (match (Str ''12.345'') (start [4, 2])) =
     Some \<lparr>errors = [EXCEEDED_MAX_NUMBER_OF_DIGITS, EXCEEDED_MAX_NUMBER_OF_DECIMAL_PLACES]\<rparr>"
    using m by (simp add: outcome_def start_def constructor_def gt_def param_def)
  from match_deterministic
    [of "snd (match (Str ''12.345'') (start [4, 2]))" "start [4, 2]" "Str ''12.345''"] h o
  show ?thesis
    by simp
qed

section \<open>What a call leaves unchanged\<close>

text \<open>
  C9. A call of \<open>match\<close> leaves the matcher, and so \<open>this.params\<close>, as it was, and every
  object that was in the store before the call keeps its contents: the state after the
  call is the state before it with one new result object at the end of the store, and the
  call returns that object's address or \<open>undefined\<close>.
\<close>

theorem match_frame:
  "(\<exists>res. snd (match v \<sigma>) = \<sigma>\<lparr>heap := heap \<sigma> @ [res]\<rparr>) \<and>
   this (snd (match v \<sigma>)) = this \<sigma> \<and>
   params (this (snd (match v \<sigma>))) = params (this \<sigma>) \<and>
   take (length (heap \<sigma>)) (heap (snd (match v \<sigma>))) = heap \<sigma> \<and>
   (fst (match v \<sigma>) = None \<or> fst (match v \<sigma>) = Some (length (heap \<sigma>)))"
proof -
  from match_shape [of v \<sigma>]
  have m: "snd (match v \<sigma>) = \<sigma>\<lparr>heap := heap \<sigma> @ [last (heap (snd (match v \<sigma>)))]\<rparr>"
    and ret: "fst (match v \<sigma>) = None \<or> fst (match v \<sigma>) = Some (length (heap \<sigma>))"
    by blast+
  from m have "\<exists>res. snd (match v \<sigma>) = \<sigma>\<lparr>heap := heap \<sigma> @ [res]\<rparr>"
    by (rule exI)
  moreover have "take (length (heap \<sigma>)) (heap (snd (match v \<sigma>))) = heap \<sigma>"
    by (subst m) simp
  ultimately show ?thesis
    using ret by (simp add: match_keeps_this)
qed

section \<open>The order of violations\<close>

text \<open>
  C10. In every call of \<open>match\<close>, the violations of the call's result object, which is the
  outcome whenever the call returns one, are those of the sequence \<open>NOT_VALID\<close>,
  \<open>EXCEEDED_MAX_NUMBER_OF_DIGITS\<close>, \<open>EXCEEDED_MAX_NUMBER_OF_DECIMAL_PLACES\<close> that it holds,
  in that order and each once; when both digit violations are present, the object holds
  the total-digit violation followed by the decimal-places violation and nothing else.
\<close>

theorem violations_in_fixed_order:
  "let r = last (heap (snd (match v \<sigma>))) in
     (outcome (match v \<sigma>) = None \<or> outcome (match v \<sigma>) = Some r) \<and>
     errors r =
       filter (\<lambda>x. x \<in> set (errors r))
         [NOT_VALID, EXCEEDED_MAX_NUMBER_OF_DIGITS, EXCEEDED_MAX_NUMBER_OF_DECIMAL_PLACES] \<and>
     (EXCEEDED_MAX_NUMBER_OF_DIGITS \<in> set (errors r) \<and>
      EXCEEDED_MAX_NUMBER_OF_DECIMAL_PLACES \<in> set (errors r) \<longrightarrow>
        errors r = [EXCEEDED_MAX_NUMBER_OF_DIGITS, EXCEEDED_MAX_NUMBER_OF_DECIMAL_PLACES])"
proof (cases "v = Null \<or> v = Undefined")
  case True
  then show ?thesis
    by (auto simp: match_absent outcome_def)
next
  case absent: False
  show ?thesis
  proof (cases "length (params (this \<sigma>)) \<le> 2")
    case False
    with absent show ?thesis
      by (simp add: match_other_arity outcome_def)
  next
    case True
    show ?thesis
    proof (cases "new_Decimal v")
      case (Inl err)
      with absent True show ?thesis
        by (simp add: match_invalid outcome_def codes_distinct)
    next
      case (Inr n)
      with True show ?thesis
        by (simp add: match_parsed outcome_def codes_distinct)
    qed
  qed
qed

text \<open>The theorem at \<open>12.34\<close> under (3, 1), where both bounds are exceeded.\<close>

theorem violations_in_fixed_order_witness:
  "outcome (match (Str ''12.34'') (start [3, 1])) =
     Some (last (heap (snd (match (Str ''12.34'') (start [3, 1]))))) \<and>
   EXCEEDED_MAX_NUMBER_OF_DIGITS \<in>
     set (errors (last (heap (snd (match (Str ''12.34'') (start [3, 1])))))) \<and>
   EXCEEDED_MAX_NUMBER_OF_DECIMAL_PLACES \<in>
     set (errors (last (heap (snd (match (Str ''12.34'') (start [3, 1])))))) \<and>
   errors (last (heap (snd (match (Str ''12.34'') (start [3, 1]))))) =
     [EXCEEDED_MAX_NUMBER_OF_DIGITS, EXCEEDED_MAX_NUMBER_OF_DECIMAL_PLACES]"
proof -
  have p: "new_Decimal (Str ''12.34'') = Inr (Finite False [1, 2, 3, 4] 1)"
    by (simp add: parse_simps)
  have "length (params (this (start [3, 1]))) \<le> 2"
    by (simp add: start_def constructor_def)
  from match_parsed [OF p this]
  have m: "match (Str ''12.34'') (start [3, 1]) =
    (Some 0, \<lparr>this = constructor [3, 1],
       heap = [\<lparr>errors = [EXCEEDED_MAX_NUMBER_OF_DIGITS, EXCEEDED_MAX_NUMBER_OF_DECIMAL_PLACES]\<rparr>]\<rparr>)"
    by (simp add: start_def constructor_def gt_def param_def)
  have present: "EXCEEDED_MAX_NUMBER_OF_DIGITS \<in>
     set (errors (last (heap (snd (match (Str ''12.34'') (start [3, 1])))))) \<and>
   EXCEEDED_MAX_NUMBER_OF_DECIMAL_PLACES \<in>
     set (errors (last (heap (snd (match (Str ''12.34'') (start [3, 1]))))))"
    by (simp add: m)
  have returned: "outcome (match (Str ''12.34'') (start [3, 1])) =
     Some (last (heap (snd (match (Str ''12.34'') (start [3, 1])))))"
    by (simp add: m outcome_def)
  from violations_in_fixed_order [of "Str ''12.34''" "start [3, 1]"] present returned
  show ?thesis
    by (simp add: Let_def)
qed

end
